theory Spec2Isabelle
  imports Complex_Main
begin

section \<open>The Stage of the compositing core\<close>

text \<open>
  A shallow embedding of the class \<open>Stage\<close>. The Stage object, the Scene objects it
  refers to, the property objects and the calls made to collaborators (scenes, composer,
  buffers, the event bus) are one explicit state. Scenes are references into a heap, so
  that \<open>indexOf\<close> and \<open>remove\<close> compare by identity; property objects live in a store of
  their own, so that a copy and the original can be told apart. Calls to collaborators
  are recorded, in order, in a trace.
\<close>

subsection \<open>Values and objects\<close>

type_synonym scene_ref = nat
type_synonym addr = nat
type_synonym frame_data = nat

datatype js_error = TypeError

text \<open>
  The property record of the Stage: \<open>Stage.defaultProperties\<close> gives its keys. The
  numbers of the source are doubles. Widths and heights are whole numbers here, and the
  zoom is a rational: on the zoom levels, multiples of a quarter, adding and subtracting
  0.25 is exact in doubles.
\<close>

record stage_properties =
  width :: int
  height :: int
  zoom :: rat
  backgroundColor :: string

text \<open>A partial property record, as \<open>update\<close> receives it: an absent key is \<open>undefined\<close>.\<close>

record property_update =
  upd_width :: "int option"
  upd_height :: "int option"
  upd_zoom :: "rat option"
  upd_backgroundColor :: "string option"

text \<open>
  Modelled from the spec: the property record of a Scene (\<open>core/Scene\<close> is not among the
  sources). Only \<open>enabled\<close> is read by the Stage; the other keys are opaque to it.
\<close>

record scene_properties =
  enabled :: bool
  blend_props :: "(string \<times> string) list"

text \<open>
  Modelled from the spec: a Scene object, as far as the Stage's collaborator contract
  reaches: its property record, whether it reports changes, its back-reference to the
  Stage (the Stage's id, or \<open>null\<close>) and the size it was last given.
\<close>

record scene =
  scene_props :: scene_properties
  scene_changed :: bool
  scene_stage :: "nat option"
  scene_size :: "int \<times> int"

text \<open>The buffer that \<open>scene.render(data)\<close> returns, named by the scene and the frame data.\<close>

datatype buffer = SceneBuffer scene_ref frame_data

text \<open>The calls the Stage makes to its collaborators.\<close>

datatype event =
    SceneSetSize scene_ref int int
  | ComposerSetSize int int
  | CanvasBufferSetSize int int
  | GLBufferSetSize int int
  | Emit string
  | SceneAddToStage scene_ref
  | SceneRemoveFromStage scene_ref "nat option"
  | ResetDisplayCount
  | RaiseError string
  | ColorSet string
  | ComposerClear "string option" rat
  | SceneRender scene_ref frame_data
  | ComposerBlendBuffer buffer scene_properties
  | ComposerRenderToScreen
  | SceneAddElement scene_ref string
  | ElementSetReactor scene_ref string string string
  | SceneSetReactor scene_ref string string
  | LoggerWarn string

text \<open>
  The Stage and what it reaches. \<open>properties\<close> is the address of the Stage's property
  object in \<open>props_store\<close>; \<open>composer\<close>, \<open>canvasBuffer\<close>, \<open>glBuffer\<close> (each with its size),
  \<open>renderer\<close> and \<open>stage_backgroundColor\<close> are \<open>undefined\<close> (None) until \<open>init\<close> assigns them.
\<close>

record state =
  stage_id :: nat
  stage_name :: string
  stage_type :: string
  properties :: addr
  scenes :: "scene_ref list"
  changed :: bool
  initialized :: bool
  renderer :: "(int \<times> int) option"
  composer :: "(int \<times> int) option"
  canvasBuffer :: "(int \<times> int) option"
  glBuffer :: "(int \<times> int) option"
  stage_backgroundColor :: "string option"
  props_store :: "addr \<Rightarrow> stage_properties"
  next_addr :: addr
  scene_heap :: "scene_ref \<Rightarrow> scene"
  next_scene :: scene_ref
  trace :: "event list"

text \<open>How a call ends: it returns, or it throws and leaves the state it had reached.\<close>

datatype 'a completion = Returns 'a | Throws js_error state

text \<open>
  What the Stage imports and the sources do not hold: the constants of
  \<open>view/constants\<close> and the names the display and effect libraries export.
\<close>

record env =
  CANVAS_WIDTH :: int
  CANVAS_HEIGHT :: int
  DISPLAY_TYPE_STAGE :: string
  displayLibrary :: "string list"
  effectsLibrary :: "string list"

subsection \<open>The configuration record\<close>

record component_config =
  comp_name :: string
  comp_properties :: "(string \<times> string) list"
  comp_reactors :: "(string \<times> string) list option"

record scene_config =
  cfg_properties :: scene_properties
  cfg_displays :: "component_config list option"
  cfg_effects :: "component_config list option"
  cfg_reactors :: "(string \<times> string) list option"

record stage_config =
  cfg_stage_properties :: property_update

record config =
  cfg_stage :: "stage_config option"
  cfg_scenes :: "scene_config list option"

text \<open>The values \<open>loadConfig\<close> can be called with.\<close>

datatype js_value =
    JUndefined
  | JNull
  | JBoolean bool
  | JNumber rat
  | JString string
  | JFunction
  | JArray "js_value list"
  | JObject config

text \<open>JavaScript's \<open>typeof\<close>: \<open>null\<close> and arrays are objects.\<close>

fun typeof :: "js_value \<Rightarrow> string" where
  "typeof JUndefined = ''undefined''"
| "typeof JNull = ''object''"
| "typeof (JBoolean b) = ''boolean''"
| "typeof (JNumber n) = ''number''"
| "typeof (JString s) = ''string''"
| "typeof JFunction = ''function''"
| "typeof (JArray vs) = ''object''"
| "typeof (JObject c) = ''object''"

text \<open>
  Reading \<open>config.scenes\<close> and \<open>config.stage\<close>: a TypeError on \<open>null\<close> and \<open>undefined\<close>,
  \<open>undefined\<close> on a value without that key.
\<close>

fun get_scenes :: "js_value \<Rightarrow> js_error + scene_config list option" where
  "get_scenes JUndefined = Inl TypeError"
| "get_scenes JNull = Inl TypeError"
| "get_scenes (JObject c) = Inr (cfg_scenes c)"
| "get_scenes v = Inr None"

fun get_stage :: "js_value \<Rightarrow> js_error + stage_config option" where
  "get_stage JUndefined = Inl TypeError"
| "get_stage JNull = Inl TypeError"
| "get_stage (JObject c) = Inr (cfg_stage c)"
| "get_stage v = Inr None"

subsection \<open>Arrays\<close>

text \<open>\<open>Array.prototype.indexOf\<close>: the first index holding the item, or -1.\<close>

fun indexOf_from :: "'a list \<Rightarrow> 'a \<Rightarrow> int \<Rightarrow> int" where
  "indexOf_from [] x k = - 1"
| "indexOf_from (y # ys) x k = (if y = x then k else indexOf_from ys x (k + 1))"

definition indexOf :: "'a list \<Rightarrow> 'a \<Rightarrow> int" where
  "indexOf arr x = indexOf_from arr x 0"

text \<open>
  Modelled from the spec: \<open>swap\<close> of \<open>utils/array\<close>, which is not among the sources. It
  exchanges the elements at two indices; with an index out of range it does nothing.
\<close>

definition swap_arr :: "'a list \<Rightarrow> int \<Rightarrow> int \<Rightarrow> 'a list" where
  "swap_arr arr a b =
     (if 0 \<le> a \<and> a < int (length arr) \<and> 0 \<le> b \<and> b < int (length arr)
      then arr[nat a := arr ! nat b, nat b := arr ! nat a]
      else arr)"

text \<open>
  Modelled from the spec: \<open>remove\<close> of \<open>utils/array\<close>, which is not among the sources. It
  removes the item by identity; an item that is not there leaves the array as it is.
\<close>

definition remove_arr :: "'a list \<Rightarrow> 'a \<Rightarrow> 'a list" where
  "remove_arr arr x = remove1 x arr"

text \<open>
  Modelled from the spec: \<open>insert\<close> of \<open>utils/array\<close>, which is not among the sources. The
  elements at and after the index shift later.
\<close>

definition insert_arr :: "'a list \<Rightarrow> nat \<Rightarrow> 'a \<Rightarrow> 'a list" where
  "insert_arr arr i x = take i arr @ [x] @ drop i arr"

subsection \<open>Helpers of the state\<close>

definition log_event :: "event \<Rightarrow> state \<Rightarrow> state" where
  "log_event e w = w\<lparr>trace := trace w @ [e]\<rparr>"

definition stage_props :: "state \<Rightarrow> stage_properties" where
  "stage_props w = props_store w (properties w)"

definition update_scene :: "scene_ref \<Rightarrow> (scene \<Rightarrow> scene) \<Rightarrow> state \<Rightarrow> state" where
  "update_scene r f w = w\<lparr>scene_heap := (scene_heap w)(r := f (scene_heap w r))\<rparr>"

definition and_then :: "'a completion \<Rightarrow> ('a \<Rightarrow> 'b completion) \<Rightarrow> 'b completion" where
  "and_then c f = (case c of Returns x \<Rightarrow> f x | Throws e w \<Rightarrow> Throws e w)"

subsection \<open>Collaborators\<close>

text \<open>
  \<open>core/Scene\<close> is not among the sources: what the Stage calls on a scene follows the
  spec's collaborator contract.
\<close>

text \<open>
  Modelled from the spec: \<open>setSize\<close> of a Scene (\<open>core/Scene\<close> is missing). It records the
  size; the call goes to the trace.
\<close>

definition Scene_setSize :: "scene_ref \<Rightarrow> int \<Rightarrow> int \<Rightarrow> state \<Rightarrow> state" where
  "Scene_setSize r w' h' w =
     log_event (SceneSetSize r w' h') (update_scene r (\<lambda>s. s\<lparr>scene_size := (w', h')\<rparr>) w)"

text \<open>
  Modelled from the spec: \<open>hasChanges\<close> of a Scene (\<open>core/Scene\<close> is missing). It reads
  the scene's dirty state and changes nothing.
\<close>

definition Scene_hasChanges :: "scene_ref \<Rightarrow> state \<Rightarrow> bool \<times> state" where
  "Scene_hasChanges r w = (scene_changed (scene_heap w r), w)"

text \<open>
  Modelled from the spec: \<open>resetChanges\<close> of a Scene (\<open>core/Scene\<close> is missing). It clears
  the scene's dirty state.
\<close>

definition Scene_resetChanges :: "scene_ref \<Rightarrow> state \<Rightarrow> state" where
  "Scene_resetChanges r w = update_scene r (\<lambda>s. s\<lparr>scene_changed := False\<rparr>) w"

text \<open>
  Modelled from the spec: \<open>render\<close> of a Scene (\<open>core/Scene\<close> is missing). It returns a
  buffer; the call goes to the trace.
\<close>

definition Scene_render :: "scene_ref \<Rightarrow> frame_data \<Rightarrow> state \<Rightarrow> buffer \<times> state" where
  "Scene_render r d w = (SceneBuffer r d, log_event (SceneRender r d) w)"

text \<open>
  Modelled from the spec: the attach hook \<open>addToStage\<close> of a Scene (\<open>core/Scene\<close> is
  missing), a call the trace records.
\<close>

definition Scene_addToStage :: "scene_ref \<Rightarrow> state \<Rightarrow> state" where
  "Scene_addToStage r w = log_event (SceneAddToStage r) w"

text \<open>
  Modelled from the spec: the detach hook \<open>removeFromStage\<close> of a Scene (\<open>core/Scene\<close> is
  missing), a call the trace records together with the back-reference \<open>scene.stage\<close> the
  hook finds when it is entered.
\<close>

definition Scene_removeFromStage :: "scene_ref \<Rightarrow> state \<Rightarrow> state" where
  "Scene_removeFromStage r w =
     log_event (SceneRemoveFromStage r (scene_stage (scene_heap w r))) w"

text \<open>
  Modelled from the spec: \<open>new Scene(properties)\<close>. A new object, not yet attached and
  with nothing to report.
\<close>

definition new_Scene :: "scene_properties \<Rightarrow> state \<Rightarrow> scene_ref \<times> state" where
  "new_Scene p w =
     (next_scene w,
      w\<lparr>scene_heap := (scene_heap w)(next_scene w :=
           \<lparr>scene_props = p, scene_changed = False, scene_stage = None, scene_size = (0, 0)\<rparr>),
        next_scene := Suc (next_scene w)\<rparr>)"

text \<open>
  Modelled from the spec: the merge of a partial property record into the property
  record, which \<open>update\<close> of \<open>Display\<close> performs (\<open>core/Display\<close> is not among the
  sources). Only the keys that are provided are applied.
\<close>

definition merge_properties :: "property_update \<Rightarrow> stage_properties \<Rightarrow> stage_properties" where
  "merge_properties u p =
     \<lparr>width = (case upd_width u of None \<Rightarrow> width p | Some v \<Rightarrow> v),
      height = (case upd_height u of None \<Rightarrow> height p | Some v \<Rightarrow> v),
      zoom = (case upd_zoom u of None \<Rightarrow> zoom p | Some v \<Rightarrow> v),
      backgroundColor = (case upd_backgroundColor u of None \<Rightarrow> backgroundColor p | Some v \<Rightarrow> v)\<rparr>"

text \<open>
  Modelled from the spec: \<open>update\<close> of \<open>Display\<close>, the superclass (\<open>core/Display\<close> is not
  among the sources). It applies the keys that are provided to the property object,
  returns whether a property changed, by per-field equality, and marks the Stage dirty
  only when one did.
\<close>

definition Display_update :: "property_update \<Rightarrow> state \<Rightarrow> bool \<times> state" where
  "Display_update u w =
     (let old = stage_props w;
          new = merge_properties u old;
          ch = (new \<noteq> old)
      in (ch, w\<lparr>props_store := (props_store w)(properties w := new),
                changed := (changed w \<or> ch)\<rparr>))"

text \<open>
  Modelled from the spec: the constructor of \<open>Display\<close>, which assigns \<open>id\<close>, \<open>name\<close> and
  the property object. The spec has \<open>id\<close> and \<open>name\<close> assigned externally, so they are
  arguments here. The rest is the constructor of \<open>Stage\<close>: no scenes, not initialized,
  the type tag; none of the rendering resources exists yet.
\<close>

definition new_Stage :: "env \<Rightarrow> nat \<Rightarrow> string \<Rightarrow> stage_properties \<Rightarrow> state" where
  "new_Stage en i n p =
     \<lparr>stage_id = i, stage_name = n, stage_type = DISPLAY_TYPE_STAGE en,
      properties = 0, scenes = [], changed = False, initialized = False,
      renderer = None, composer = None, canvasBuffer = None, glBuffer = None,
      stage_backgroundColor = None,
      props_store = (\<lambda>a. p), next_addr = 1,
      scene_heap = (\<lambda>r. \<lparr>scene_props = \<lparr>enabled = False, blend_props = []\<rparr>,
                          scene_changed = False, scene_stage = None, scene_size = (0, 0)\<rparr>),
      next_scene = 0, trace = []\<rparr>"

text \<open>\<open>Stage.defaultProperties\<close>, with the two constants of \<open>view/constants\<close>.\<close>

definition Stage_defaultProperties :: "env \<Rightarrow> property_update" where
  "Stage_defaultProperties en =
     \<lparr>upd_width = Some (CANVAS_WIDTH en), upd_height = Some (CANVAS_HEIGHT en),
      upd_zoom = Some 1, upd_backgroundColor = Some ''#000000''\<rparr>"

text \<open>
  Modelled from the spec: \<open>raiseError\<close> of \<open>view/global\<close>, the user-visible error report.
\<close>

definition raiseError :: "string \<Rightarrow> state \<Rightarrow> state" where
  "raiseError msg w = log_event (RaiseError msg) w"

subsection \<open>init, setSize, update\<close>

text \<open>
  \<open>init(canvas)\<close>: the canvas goes to the renderer and plays no further part, so it is
  not an argument here. The renderer, the composer and the two buffers are created with
  the size of the properties, the color from \<open>backgroundColor\<close>.
\<close>

definition init :: "state \<Rightarrow> state" where
  "init w =
     (if initialized w then w
      else (let p = stage_props w
            in w\<lparr>renderer := Some (width p, height p),
                 composer := Some (width p, height p),
                 canvasBuffer := Some (width p, height p),
                 glBuffer := Some (width p, height p),
                 stage_backgroundColor := Some (backgroundColor p),
                 initialized := True\<rparr>))"

text \<open>
  \<open>setSize\<close>: the scenes first, then \<open>this.composer\<close>, \<open>this.canvasBuffer\<close> and
  \<open>this.glBuffer\<close>, each a TypeError when it is \<open>undefined\<close>, then the event.
\<close>

definition setSize :: "int \<Rightarrow> int \<Rightarrow> state \<Rightarrow> state completion" where
  "setSize w' h' w =
     (let w1 = foldl (\<lambda>s r. Scene_setSize r w' h' s) w (scenes w)
      in case composer w1 of
           None \<Rightarrow> Throws TypeError w1
         | Some c \<Rightarrow>
             (let w2 = log_event (ComposerSetSize w' h') (w1\<lparr>composer := Some (w', h')\<rparr>)
              in case canvasBuffer w2 of
                   None \<Rightarrow> Throws TypeError w2
                 | Some b \<Rightarrow>
                     (let w3 = log_event (CanvasBufferSetSize w' h')
                                 (w2\<lparr>canvasBuffer := Some (w', h')\<rparr>)
                      in case glBuffer w3 of
                           None \<Rightarrow> Throws TypeError w3
                         | Some g \<Rightarrow>
                             Returns (log_event (Emit ''stage-resize'')
                               (log_event (GLBufferSetSize w' h')
                                  (w3\<lparr>glBuffer := Some (w', h')\<rparr>))))))"

definition update :: "property_update \<Rightarrow> state \<Rightarrow> (bool \<times> state) completion" where
  "update u w =
     (let (ch, w1) = Display_update u w
      in if ch then
           and_then
             (if upd_width u \<noteq> None \<or> upd_height u \<noteq> None
              then setSize (width (stage_props w1)) (height (stage_props w1)) w1
              else Returns w1)
             (\<lambda>w2. case upd_backgroundColor u of
                      None \<Rightarrow> Returns (ch, w2)
                    | Some c \<Rightarrow>
                        (case stage_backgroundColor w2 of
                           None \<Rightarrow> Throws TypeError w2
                         | Some old \<Rightarrow>
                             Returns (ch, log_event (ColorSet c)
                                            (w2\<lparr>stage_backgroundColor := Some c\<rparr>))))
         else Returns (ch, w1))"

subsection \<open>Scenes\<close>

text \<open>
  \<open>addScene(scene, index)\<close>, called with a scene, as \<open>loadConfig\<close> calls it; the hook
  \<open>addToStage\<close> is there on every Scene.
\<close>

definition addScene :: "scene_ref \<Rightarrow> nat option \<Rightarrow> state \<Rightarrow> scene_ref \<times> state" where
  "addScene r index w =
     (let w1 = (case index of
                  Some i \<Rightarrow> w\<lparr>scenes := insert_arr (scenes w) i r\<rparr>
                | None \<Rightarrow> w\<lparr>scenes := scenes w @ [r]\<rparr>);
          w2 = update_scene r (\<lambda>s. s\<lparr>scene_stage := Some (stage_id w1)\<rparr>) w1;
          w3 = Scene_addToStage r w2
      in (r, w3\<lparr>changed := True\<rparr>))"

definition removeScene :: "scene_ref \<Rightarrow> state \<Rightarrow> state" where
  "removeScene r w =
     (let w1 = w\<lparr>scenes := remove_arr (scenes w) r\<rparr>;
          w2 = update_scene r (\<lambda>s. s\<lparr>scene_stage := None\<rparr>) w1;
          w3 = Scene_removeFromStage r w2
      in w3\<lparr>changed := True\<rparr>)"

text \<open>
  \<open>shiftScene\<close>, with the \<open>swap\<close> it calls as an argument, and with the \<open>swap\<close> modelled
  above.
\<close>

definition shiftScene_with ::
    "(scene_ref list \<Rightarrow> int \<Rightarrow> int \<Rightarrow> scene_ref list) \<Rightarrow> scene_ref \<Rightarrow> int \<Rightarrow> state \<Rightarrow> bool \<times> state" where
  "shiftScene_with sw r i w =
     (let index = indexOf (scenes w) r;
          w1 = w\<lparr>scenes := sw (scenes w) index (index + i)\<rparr>;
          w2 = w1\<lparr>changed := (indexOf (scenes w1) r \<noteq> index)\<rparr>
      in (changed w2, w2))"

definition shiftScene :: "scene_ref \<Rightarrow> int \<Rightarrow> state \<Rightarrow> bool \<times> state" where
  "shiftScene = shiftScene_with swap_arr"

definition clearScenes :: "state \<Rightarrow> state" where
  "clearScenes w =
     (let w1 = foldl (\<lambda>s r. removeScene r s) w (scenes w);
          w2 = log_event ResetDisplayCount w1
      in w2\<lparr>changed := True\<rparr>)"

subsection \<open>Change tracking\<close>

definition hasChanges :: "state \<Rightarrow> bool \<times> state" where
  "hasChanges w =
     (if changed w then (True, w)
      else foldl (\<lambda>(changes, s) r.
                    if \<not> changes
                    then (let (b, s') = Scene_hasChanges r s
                          in if b then (True, s') else (changes, s'))
                    else (changes, s))
             (False, w) (scenes w))"

definition resetChanges :: "state \<Rightarrow> state" where
  "resetChanges w =
     foldl (\<lambda>s r. Scene_resetChanges r s) (w\<lparr>changed := False\<rparr>) (scenes w)"

subsection \<open>Zoom\<close>

definition setZoom :: "rat \<Rightarrow> state \<Rightarrow> state completion" where
  "setZoom val w =
     (let z = zoom (stage_props w);
          no_keys = \<lparr>upd_width = None, upd_height = None, upd_zoom = None,
                     upd_backgroundColor = None\<rparr>
      in and_then
           (if val > 0 then
              (if z < 1 then update (no_keys\<lparr>upd_zoom := Some (z + 0.25)\<rparr>) w
               else Returns (False, w))
            else if val < 0 then
              (if z > 0.25 then update (no_keys\<lparr>upd_zoom := Some (z - 0.25)\<rparr>) w
               else Returns (False, w))
            else update (no_keys\<lparr>upd_zoom := Some 1\<rparr>) w)
           (\<lambda>(ch, w1). Returns (log_event (Emit ''zoom'') w1)))"

subsection \<open>Loading a configuration\<close>

text \<open>
  \<open>loadReactors\<close> and \<open>loadComponent\<close>, the two closures of \<open>loadConfig\<close>. What they do to
  the scene (\<open>addElement\<close>, \<open>setReactor\<close>) and the warning are calls the trace records.
\<close>

definition loadReactors ::
    "(string \<times> string) list \<Rightarrow> (string \<Rightarrow> string \<Rightarrow> event) \<Rightarrow> state \<Rightarrow> state" where
  "loadReactors reactors setReactor w =
     foldl (\<lambda>s (key, handler). log_event (setReactor key handler) s) w reactors"

definition loadComponent :: "scene_ref \<Rightarrow> string list \<Rightarrow> component_config \<Rightarrow> state \<Rightarrow> state" where
  "loadComponent newScene lib c w =
     (if comp_name c \<in> set lib then
        (let w1 = log_event (SceneAddElement newScene (comp_name c)) w
         in case comp_reactors c of
              Some reactors \<Rightarrow> loadReactors reactors (ElementSetReactor newScene (comp_name c)) w1
            | None \<Rightarrow> w1)
      else log_event (LoggerWarn (comp_name c)) w)"

definition loadScene :: "env \<Rightarrow> scene_config \<Rightarrow> state \<Rightarrow> state" where
  "loadScene en sc w =
     (let (newScene, w1) = new_Scene (cfg_properties sc) w;
          (r, w2) = addScene newScene None w1;
          w3 = (case cfg_displays sc of
                  Some ds \<Rightarrow> foldl (\<lambda>s d. loadComponent newScene (displayLibrary en) d s) w2 ds
                | None \<Rightarrow> w2);
          w4 = (case cfg_effects sc of
                  Some es \<Rightarrow> foldl (\<lambda>s e. loadComponent newScene (effectsLibrary en) e s) w3 es
                | None \<Rightarrow> w3)
      in case cfg_reactors sc of
           Some reactors \<Rightarrow> loadReactors reactors (SceneSetReactor newScene) w4
         | None \<Rightarrow> w4)"

definition loadConfig :: "env \<Rightarrow> js_value \<Rightarrow> state \<Rightarrow> state completion" where
  "loadConfig en cfg w =
     (if typeof cfg = ''object'' then
        (let w1 = clearScenes w
         in case get_scenes cfg of
              Inl e \<Rightarrow> Throws e w1
            | Inr ss \<Rightarrow>
                (let w2 = (case ss of
                             Some l \<Rightarrow> foldl (\<lambda>s sc. loadScene en sc s) w1 l
                           | None \<Rightarrow> w1)
                 in case get_stage cfg of
                      Inl e \<Rightarrow> Throws e w2
                    | Inr (Some st) \<Rightarrow>
                        and_then (update (cfg_stage_properties st) w2) (\<lambda>(ch, w3). Returns w3)
                    | Inr None \<Rightarrow>
                        and_then (update (Stage_defaultProperties en) w2) (\<lambda>(ch, w3). Returns w3)))
      else Returns (raiseError ''Invalid project data.'' w))"

subsection \<open>Serialization\<close>

text \<open>
  The record \<open>toJSON\<close> returns. Its \<open>properties\<close> is the address of a new object, which
  the spread \<open>{ ...properties }\<close> fills with the keys of the Stage's property object.
\<close>

record stage_json =
  json_id :: nat
  json_name :: string
  json_type :: string
  json_properties :: addr

definition toJSON :: "state \<Rightarrow> stage_json \<times> state" where
  "toJSON w =
     (let a = next_addr w;
          w1 = w\<lparr>props_store := (props_store w)(a := props_store w (properties w)),
                 next_addr := Suc a\<rparr>
      in (\<lparr>json_id = stage_id w, json_name = stage_name w, json_type = stage_type w,
           json_properties = a\<rparr>, w1))"

text \<open>
  Modelled from the spec: a Stage made again from a serialized record. The sources hold
  no such operation; the spec has \<open>id\<close> and \<open>name\<close> assigned externally, here from the
  record, and the properties are the record's.
\<close>

definition Stage_from_record :: "env \<Rightarrow> (addr \<Rightarrow> stage_properties) \<Rightarrow> stage_json \<Rightarrow> state" where
  "Stage_from_record en store j =
     new_Stage en (json_id j) (json_name j) (store (json_properties j))"

subsection \<open>Rendering\<close>

definition renderScene :: "scene_ref \<Rightarrow> frame_data \<Rightarrow> state \<Rightarrow> state completion" where
  "renderScene r d w =
     (let (buf, w1) = Scene_render r d w
      in case composer w1 of
           None \<Rightarrow> Throws TypeError w1
         | Some c \<Rightarrow>
             Returns (log_event (ComposerBlendBuffer buf (scene_props (scene_heap w1 r))) w1))"

text \<open>The \<open>forEach\<close> of \<open>render\<close>: a throw ends the loop.\<close>

fun render_scenes :: "scene_ref list \<Rightarrow> frame_data \<Rightarrow> state \<Rightarrow> state completion" where
  "render_scenes [] d w = Returns w"
| "render_scenes (r # rs) d w =
     and_then
       (if enabled (scene_props (scene_heap w r)) then renderScene r d w else Returns w)
       (render_scenes rs d)"

definition render :: "frame_data \<Rightarrow> state \<Rightarrow> state completion" where
  "render d w =
     (case composer w of
        None \<Rightarrow> Throws TypeError w
      | Some c \<Rightarrow>
          and_then
            (render_scenes (scenes w) d (log_event (ComposerClear (stage_backgroundColor w) 1) w))
            (\<lambda>w1. Returns (log_event ComposerRenderToScreen w1)))"

text \<open>What \<open>init\<close> leaves behind: the composer, both buffers and the color exist.\<close>

definition resources_allocated :: "state \<Rightarrow> bool" where
  "resources_allocated w =
     (composer w \<noteq> None \<and> canvasBuffer w \<noteq> None \<and> glBuffer w \<noteq> None \<and>
      stage_backgroundColor w \<noteq> None)"

text \<open>
  The calls one pass of the loop of \<open>render\<close> makes for a scene: those of \<open>renderScene\<close>
  when the scene is enabled, none otherwise.
\<close>

definition scene_calls :: "(scene_ref \<Rightarrow> scene) \<Rightarrow> frame_data \<Rightarrow> scene_ref \<Rightarrow> event list" where
  "scene_calls h d r =
     (if enabled (scene_props (h r))
      then [SceneRender r d, ComposerBlendBuffer (SceneBuffer r d) (scene_props (h r))]
      else [])"

text \<open>A caller that calls \<open>setZoom\<close> with the same argument \<open>n\<close> times in a row.\<close>

fun repeat_setZoom :: "nat \<Rightarrow> rat \<Rightarrow> state \<Rightarrow> state completion" where
  "repeat_setZoom 0 val w = Returns w"
| "repeat_setZoom (Suc n) val w = and_then (setZoom val w) (repeat_setZoom n val)"

text \<open>
  The zoom levels, and the zoom one call of \<open>setZoom\<close> leaves, as a function of its
  argument and the zoom before: both are used in the proofs below.
\<close>

definition zoom_levels :: "rat set" where
  "zoom_levels = {0.25, 0.5, 0.75, 1}"

definition zoom_target :: "rat \<Rightarrow> rat \<Rightarrow> rat" where
  "zoom_target val z =
     (if val > 0 then (if z < 1 then z + 0.25 else z)
      else if val < 0 then (if z > 0.25 then z - 0.25 else z)
      else 1)"

subsection \<open>A Stage to run the operations on\<close>

text \<open>
  Values for the imported constants and libraries, a Stage as the constructor makes it
  with the default properties, and the same Stage, dirty, with three scenes.
\<close>

definition example_env :: env where
  "example_env =
     \<lparr>CANVAS_WIDTH = 854, CANVAS_HEIGHT = 480, DISPLAY_TYPE_STAGE = ''stage'',
      displayLibrary = [''ImageDisplay''], effectsLibrary = [''BlurEffect'']\<rparr>"

definition example_properties :: stage_properties where
  "example_properties = \<lparr>width = 854, height = 480, zoom = 1, backgroundColor = ''#000000''\<rparr>"

definition example_stage :: state where
  "example_stage = new_Stage example_env 1 ''Stage'' example_properties"

definition three_scenes :: state where
  "three_scenes = example_stage\<lparr>scenes := [7, 8, 9], changed := True\<rparr>"

text \<open>
  A Stage with two scenes attached: scene 7 is disabled and reports changes, scene 8 is
  enabled.
\<close>

definition two_scenes :: state where
  "two_scenes =
     example_stage\<lparr>scenes := [7, 8],
       scene_heap := (scene_heap example_stage)
         (7 := \<lparr>scene_props = \<lparr>enabled = False, blend_props = [(''opacity'', ''1'')]\<rparr>,
                scene_changed = True, scene_stage = Some 1, scene_size = (854, 480)\<rparr>,
          8 := \<lparr>scene_props = \<lparr>enabled = True, blend_props = [(''opacity'', ''0.5'')]\<rparr>,
                scene_changed = False, scene_stage = Some 1, scene_size = (854, 480)\<rparr>),
       next_scene := 9\<rparr>"

text \<open>The Stage of \<open>example_stage\<close> at zoom 0.25.\<close>

definition zoomed_out :: state where
  "zoomed_out = example_stage\<lparr>props_store := (\<lambda>a. example_properties\<lparr>zoom := 0.25\<rparr>)\<rparr>"

section \<open>Properties\<close>

subsection \<open>indexOf and swap\<close>

lemma indexOf_from_notin: "x \<notin> set ys \<Longrightarrow> indexOf_from ys x k = - 1"
  by (induction ys arbitrary: k) auto

lemma indexOf_from_in:
  "x \<in> set ys \<Longrightarrow>
     k \<le> indexOf_from ys x k \<and> indexOf_from ys x k < k + int (length ys) \<and>
     ys ! nat (indexOf_from ys x k - k) = x"
proof (induction ys arbitrary: k)
  case Nil
  then show ?case by simp
next
  case (Cons y ys)
  show ?case
  proof (cases "y = x")
    case True
    then show ?thesis by simp
  next
    case False
    with Cons.prems have "x \<in> set ys" by simp
    from Cons.IH [OF this, of "k + 1"]
    have ih: "k + 1 \<le> indexOf_from ys x (k + 1)"
      "indexOf_from ys x (k + 1) < k + 1 + int (length ys)"
      "ys ! nat (indexOf_from ys x (k + 1) - (k + 1)) = x" by simp_all
    from ih(1) have "nat (indexOf_from ys x (k + 1) - k) = Suc (nat (indexOf_from ys x (k + 1) - (k + 1)))"
      by arith
    with ih False show ?thesis by simp
  qed
qed

lemma indexOf_from_nth:
  "distinct ys \<Longrightarrow> n < length ys \<Longrightarrow> indexOf_from ys (ys ! n) k = k + int n"
proof (induction ys arbitrary: k n)
  case Nil
  then show ?case by simp
next
  case (Cons y ys)
  show ?case
  proof (cases n)
    case 0
    then show ?thesis by simp
  next
    case (Suc m)
    with Cons.prems have "m < length ys" "distinct ys" "ys ! m \<noteq> y"
      by auto
    with Cons.IH [of m "k + 1"] Suc show ?thesis by simp
  qed
qed

lemma indexOf_in_range:
  "x \<in> set arr \<Longrightarrow> 0 \<le> indexOf arr x \<and> indexOf arr x < int (length arr) \<and> arr ! nat (indexOf arr x) = x"
  using indexOf_from_in [of x arr 0] by (simp add: indexOf_def)

lemma indexOf_nth: "distinct arr \<Longrightarrow> n < length arr \<Longrightarrow> indexOf arr (arr ! n) = int n"
  by (simp add: indexOf_def indexOf_from_nth)

lemma indexOf_swap_arr:
  assumes "distinct arr" and "x \<in> set arr"
    and "0 \<le> b" and "b < int (length arr)"
  shows "indexOf (swap_arr arr (indexOf arr x) b) x = b"
proof -
  let ?a = "indexOf arr x"
  from indexOf_in_range [OF assms(2)]
  have a: "0 \<le> ?a" "?a < int (length arr)" "arr ! nat ?a = x" by simp_all
  let ?ys = "arr[nat ?a := arr ! nat b, nat b := arr ! nat ?a]"
  have d: "distinct ?ys" using assms a(1,2) by (simp add: distinct_swap)
  have n: "?ys ! nat b = x" using assms a by simp
  have "indexOf ?ys (?ys ! nat b) = int (nat b)"
    using d assms by (intro indexOf_nth) simp_all
  with n assms have "indexOf ?ys x = b" by simp
  with assms a show ?thesis by (simp add: swap_arr_def)
qed

lemma shiftScene_with_eq:
  "shiftScene_with sw r i w =
     (indexOf (sw (scenes w) (indexOf (scenes w) r) (indexOf (scenes w) r + i)) r \<noteq> indexOf (scenes w) r,
      w\<lparr>scenes := sw (scenes w) (indexOf (scenes w) r) (indexOf (scenes w) r + i),
        changed := (indexOf (sw (scenes w) (indexOf (scenes w) r) (indexOf (scenes w) r + i)) r \<noteq> indexOf (scenes w) r)\<rparr>)"
  by (simp add: shiftScene_with_def Let_def)

subsection \<open>shiftScene\<close>

text \<open>
  What \<open>shiftScene(scene, delta)\<close> does for a scene the Stage owns. It returns the new
  value of \<open>changed\<close>, which is true exactly when the scene's index after the call
  differs from its index before, and it touches nothing but \<open>scenes\<close> and \<open>changed\<close>. When
  \<open>index + delta\<close> is an index of the list, the scene and the element there have
  exchanged places, and in a list without duplicates the scene is then at
  \<open>index + delta\<close>. When it is out of range the order is unchanged, the call returns
  false and the Stage is not marked dirty.
\<close>

lemma shiftScene_swaps_or_keeps_order:
  assumes own: "r \<in> set (scenes w)"
    and call: "shiftScene r i w = (b, w')"
  shows "b = (indexOf (scenes w') r \<noteq> indexOf (scenes w) r) \<and> changed w' = b \<and>
         w' = w\<lparr>scenes := scenes w', changed := b\<rparr> \<and>
         0 \<le> indexOf (scenes w) r \<and> indexOf (scenes w) r < int (length (scenes w)) \<and>
         (if 0 \<le> indexOf (scenes w) r + i \<and> indexOf (scenes w) r + i < int (length (scenes w))
          then scenes w' = (scenes w)[nat (indexOf (scenes w) r) := scenes w ! nat (indexOf (scenes w) r + i),
                                      nat (indexOf (scenes w) r + i) := r] \<and>
               (distinct (scenes w) \<longrightarrow>
                  indexOf (scenes w') r = indexOf (scenes w) r + i \<and> b = (i \<noteq> 0))
          else scenes w' = scenes w \<and> \<not> b \<and> \<not> changed w' \<and> w' = w\<lparr>changed := False\<rparr>)"
proof -
  let ?idx = "indexOf (scenes w) r"
  let ?tgt = "?idx + i"
  from indexOf_in_range [OF own]
  have idx: "0 \<le> ?idx" "?idx < int (length (scenes w))" "scenes w ! nat ?idx = r"
    by simp_all
  from call have b: "b = (indexOf (swap_arr (scenes w) ?idx ?tgt) r \<noteq> ?idx)"
    and w': "w' = w\<lparr>scenes := swap_arr (scenes w) ?idx ?tgt, changed := b\<rparr>"
    by (auto simp: shiftScene_def shiftScene_with_eq)
  from w' have sc: "scenes w' = swap_arr (scenes w) ?idx ?tgt" and ch: "changed w' = b"
    by simp_all
  have frame: "w' = w\<lparr>scenes := scenes w', changed := b\<rparr>"
    using w' by simp
  show ?thesis
  proof (cases "0 \<le> ?tgt \<and> ?tgt < int (length (scenes w))")
    case True
    have swapped: "scenes w' = (scenes w)[nat ?idx := scenes w ! nat ?tgt, nat ?tgt := r]"
      using True idx sc by (simp add: swap_arr_def)
    have moved: "indexOf (scenes w') r = ?tgt \<and> b = (i \<noteq> 0)" if dist: "distinct (scenes w)"
    proof -
      have "indexOf (swap_arr (scenes w) ?idx ?tgt) r = ?tgt"
        using True indexOf_swap_arr [OF dist own, of ?tgt] by simp
      then show ?thesis using b sc by auto
    qed
    from swapped moved True idx(1,2) b ch frame sc show ?thesis by simp
  next
    case False
    then have same: "swap_arr (scenes w) ?idx ?tgt = scenes w"
      by (auto simp: swap_arr_def)
    then have nb: "\<not> b" using b by simp
    have "w' = w\<lparr>changed := False\<rparr>" using w' same nb by simp
    then show ?thesis using False same idx(1,2) b ch frame sc nb by auto
  qed
qed

lemma shiftScene_swaps_or_keeps_order_example:
  "7 \<in> set (scenes three_scenes) \<and> distinct (scenes three_scenes) \<and>
   shiftScene 7 1 three_scenes = (True, three_scenes\<lparr>scenes := [8, 7, 9], changed := True\<rparr>) \<and>
   indexOf (scenes (snd (shiftScene 7 1 three_scenes))) 7 = 1"
  using shiftScene_swaps_or_keeps_order [of 7 three_scenes 1 True "three_scenes\<lparr>scenes := [8, 7, 9], changed := True\<rparr>"]
  by (simp add: three_scenes_def example_stage_def new_Stage_def shiftScene_def
      shiftScene_with_def indexOf_def swap_arr_def Let_def)

text \<open>
  C2. The out-of-range call is to be a complete no-op, and on a dirty Stage the code is
  not. The Stage of the example owns scene 7 at index 0 and is dirty, as \<open>addScene\<close>,
  \<open>removeScene\<close> and \<open>clearScenes\<close> leave a Stage. \<open>shiftScene(scene, -1)\<close> has the target
  index -1: it keeps the order and returns false, and its assignment to \<open>this.changed\<close>
  clears the flag, which elsewhere only \<open>resetChanges\<close> clears. The Stage it leaves is not
  the Stage it was called on.
\<close>

theorem shiftScene_out_of_range_clears_changed:
  "7 \<in> set (scenes three_scenes) \<and> indexOf (scenes three_scenes) 7 + (- 1) < 0 \<and>
   changed three_scenes \<and>
   shiftScene 7 (- 1) three_scenes = (False, three_scenes\<lparr>changed := False\<rparr>) \<and>
   snd (shiftScene 7 (- 1) three_scenes) \<noteq> three_scenes"
proof -
  have c: "changed three_scenes" "scenes three_scenes = [7, 8, 9]"
    by (simp_all add: three_scenes_def)
  have r: "shiftScene 7 (- 1) three_scenes = (False, three_scenes\<lparr>changed := False\<rparr>)"
    by (simp add: c shiftScene_def shiftScene_with_def indexOf_def swap_arr_def Let_def)
  have "changed (snd (shiftScene 7 (- 1) three_scenes)) \<noteq> changed three_scenes"
    by (simp add: r c)
  then have "snd (shiftScene 7 (- 1) three_scenes) \<noteq> three_scenes" by metis
  with c r show ?thesis by (simp add: indexOf_def)
qed

text \<open>
  C9. Whatever \<open>swap\<close> does, the flag \<open>changed\<close> after \<open>shiftScene\<close> is the boolean the call
  returned, and a call after which the scene's index is what it was leaves \<open>changed\<close>
  false, also when it was true before: in the example the Stage is dirty, the target
  index -1 is out of range, and the call clears the flag.
\<close>

theorem shiftScene_overwrites_changed:
  assumes call: "shiftScene_with sw r i w = (b, w')"
  shows "changed w' = b \<and>
         b = (indexOf (scenes w') r \<noteq> indexOf (scenes w) r) \<and>
         (indexOf (scenes w') r = indexOf (scenes w) r \<longrightarrow> \<not> changed w')"
  using call by (auto simp: shiftScene_with_eq)

theorem shiftScene_overwrites_changed_witness:
  "changed three_scenes \<and>
   shiftScene_with swap_arr 7 (- 1) three_scenes = (False, three_scenes\<lparr>changed := False\<rparr>) \<and>
   \<not> changed (snd (shiftScene_with swap_arr 7 (- 1) three_scenes))"
  using shiftScene_overwrites_changed [of swap_arr 7 "- 1" three_scenes False "three_scenes\<lparr>changed := False\<rparr>"]
  by (simp add: three_scenes_def example_stage_def new_Stage_def
      shiftScene_with_def indexOf_def swap_arr_def Let_def)

subsection \<open>init\<close>

lemma init_allocates: "resources_allocated (init w) = (initialized w \<longrightarrow> resources_allocated w)"
  by (simp add: init_def resources_allocated_def Let_def)

lemma new_Stage_unallocated:
  "composer (new_Stage en i n p) = None \<and> \<not> initialized (new_Stage en i n p)"
  by (simp add: new_Stage_def)

subsection \<open>removeScene\<close>

lemma removeScene_eq:
  "removeScene r w =
     (Scene_removeFromStage r
        (update_scene r (\<lambda>s. s\<lparr>scene_stage := None\<rparr>) (w\<lparr>scenes := remove_arr (scenes w) r\<rparr>)))
     \<lparr>changed := True\<rparr>"
  by (simp add: removeScene_def Let_def)

text \<open>
  C5. For a scene the Stage owns, in a scene list without duplicates, \<open>removeScene(scene)\<close>
  takes the scene out of the ordered sequence (the others keep their order), leaves
  \<open>scene.stage\<close> null, calls the detach hook once and marks the Stage dirty. The hook
  runs on a state \<open>mid\<close> in which the scene is already out of the list and its
  back-reference is already null: the call recorded in the trace carries the
  back-reference the hook found, and it is null.
\<close>

theorem removeScene_clears_before_detach:
  assumes own: "r \<in> set (scenes w)" and dist: "distinct (scenes w)"
  shows "scenes (removeScene r w) = remove1 r (scenes w) \<and>
         r \<notin> set (scenes (removeScene r w)) \<and>
         length (scenes (removeScene r w)) = length (scenes w) - 1 \<and>
         scene_stage (scene_heap (removeScene r w) r) = None \<and>
         trace (removeScene r w) = trace w @ [SceneRemoveFromStage r None] \<and>
         changed (removeScene r w) \<and>
         (\<exists>mid. removeScene r w = (Scene_removeFromStage r mid)\<lparr>changed := True\<rparr> \<and>
                scenes mid = remove1 r (scenes w) \<and>
                scene_stage (scene_heap mid r) = None \<and> trace mid = trace w)"
proof -
  let ?mid = "update_scene r (\<lambda>s. s\<lparr>scene_stage := None\<rparr>) (w\<lparr>scenes := remove_arr (scenes w) r\<rparr>)"
  have mid: "scenes ?mid = remove1 r (scenes w)" "scene_stage (scene_heap ?mid r) = None"
    "trace ?mid = trace w"
    by (simp_all add: update_scene_def remove_arr_def)
  have eq: "removeScene r w = (Scene_removeFromStage r ?mid)\<lparr>changed := True\<rparr>"
    by (rule removeScene_eq)
  have sc: "scenes (removeScene r w) = remove1 r (scenes w)"
    by (simp add: eq Scene_removeFromStage_def log_event_def mid(1))
  have notin: "r \<notin> set (remove1 r (scenes w))" using dist by simp
  have len: "length (remove1 r (scenes w)) = length (scenes w) - 1"
    using own by (simp add: length_remove1)
  have st: "scene_stage (scene_heap (removeScene r w) r) = None"
    by (simp add: eq Scene_removeFromStage_def log_event_def update_scene_def)
  have tr: "trace (removeScene r w) = trace w @ [SceneRemoveFromStage r None]"
    by (simp add: eq Scene_removeFromStage_def log_event_def update_scene_def)
  have ch: "changed (removeScene r w)" by (simp add: eq)
  from eq mid have "\<exists>mid. removeScene r w = (Scene_removeFromStage r mid)\<lparr>changed := True\<rparr> \<and>
                scenes mid = remove1 r (scenes w) \<and>
                scene_stage (scene_heap mid r) = None \<and> trace mid = trace w"
    by blast
  with sc notin len st tr ch show ?thesis by simp
qed

theorem removeScene_clears_before_detach_witness:
  "7 \<in> set (scenes two_scenes) \<and> distinct (scenes two_scenes) \<and>
   scene_stage (scene_heap two_scenes 7) = Some 1 \<and>
   scenes (removeScene 7 two_scenes) = [8] \<and>
   scene_stage (scene_heap (removeScene 7 two_scenes) 7) = None \<and>
   trace (removeScene 7 two_scenes) = [SceneRemoveFromStage 7 None] \<and>
   changed (removeScene 7 two_scenes)"
  using removeScene_clears_before_detach [of 7 two_scenes]
  by (simp add: two_scenes_def example_stage_def new_Stage_def)

subsection \<open>setSize\<close>

lemma foldl_setSize_fields:
  "composer (foldl (\<lambda>s r. Scene_setSize r a b s) w rs) = composer w \<and>
   canvasBuffer (foldl (\<lambda>s r. Scene_setSize r a b s) w rs) = canvasBuffer w \<and>
   glBuffer (foldl (\<lambda>s r. Scene_setSize r a b s) w rs) = glBuffer w \<and>
   scenes (foldl (\<lambda>s r. Scene_setSize r a b s) w rs) = scenes w \<and>
   trace (foldl (\<lambda>s r. Scene_setSize r a b s) w rs) = trace w @ map (\<lambda>r. SceneSetSize r a b) rs"
  by (induction rs arbitrary: w) (simp_all add: Scene_setSize_def log_event_def update_scene_def)

text \<open>
  C6. On a Stage whose resources exist, \<open>setSize(width, height)\<close> returns, and the calls it
  makes are, in this order: \<open>setSize\<close> on every owned scene in stored order, on the
  composer, on the canvas buffer, on the GL buffer, and last the \<open>stage-resize\<close> event.
\<close>

theorem setSize_order:
  assumes "resources_allocated w"
  shows "\<exists>w'. setSize a b w = Returns w' \<and>
           trace w' = trace w @ map (\<lambda>r. SceneSetSize r a b) (scenes w) @
                      [ComposerSetSize a b, CanvasBufferSetSize a b, GLBufferSetSize a b,
                       Emit ''stage-resize''] \<and>
           scenes w' = scenes w"
proof -
  let ?w1 = "foldl (\<lambda>s r. Scene_setSize r a b s) w (scenes w)"
  from assms foldl_setSize_fields [of a b w "scenes w"]
  obtain c cb g where "composer ?w1 = Some c" "canvasBuffer ?w1 = Some cb" "glBuffer ?w1 = Some g"
    by (auto simp: resources_allocated_def)
  then show ?thesis
    using foldl_setSize_fields [of a b w "scenes w"]
    by (simp add: setSize_def Let_def log_event_def)
qed

theorem setSize_order_witness:
  "resources_allocated (init two_scenes) \<and>
   (\<exists>w'. setSize 640 360 (init two_scenes) = Returns w' \<and>
      trace w' = [SceneSetSize 7 640 360, SceneSetSize 8 640 360, ComposerSetSize 640 360,
                  CanvasBufferSetSize 640 360, GLBufferSetSize 640 360, Emit ''stage-resize''])"
proof -
  have a: "resources_allocated (init two_scenes)"
    by (simp add: init_allocates two_scenes_def example_stage_def new_Stage_def)
  have t: "trace (init two_scenes) = []" "scenes (init two_scenes) = [7, 8]"
    by (simp_all add: init_def Let_def two_scenes_def example_stage_def new_Stage_def)
  from setSize_order [OF a, of 640 360] t a show ?thesis by auto
qed

text \<open>
  C10. On a Stage whose composer does not exist, as the constructor leaves it until
  \<open>init\<close> runs, \<open>setSize\<close> throws a TypeError at \<open>this.composer.setSize\<close>, after it has
  resized the scenes; and \<open>update\<close> throws it too when a width or a height is provided
  that differs from the current one.
\<close>

theorem setSize_before_init_fails:
  assumes "composer w = None"
  shows "setSize a b w = Throws TypeError (foldl (\<lambda>s r. Scene_setSize r a b s) w (scenes w)) \<and>
         ((\<exists>v. upd_width u = Some v \<and> v \<noteq> width (stage_props w)) \<or>
          (\<exists>v. upd_height u = Some v \<and> v \<noteq> height (stage_props w)) \<longrightarrow>
          (\<exists>w'. update u w = Throws TypeError w'))"
proof -
  have s: "\<And>a b v. composer v = None \<Longrightarrow>
     setSize a b v = Throws TypeError (foldl (\<lambda>s r. Scene_setSize r a b s) v (scenes v))"
    using foldl_setSize_fields by (simp add: setSize_def Let_def)
  have c: "composer (snd (Display_update u w)) = None"
    using assms by (simp add: Display_update_def Let_def)
  have u: "(upd_width u \<noteq> None \<or> upd_height u \<noteq> None) \<and>
          merge_properties u (stage_props w) \<noteq> stage_props w \<Longrightarrow>
          \<exists>w'. update u w = Throws TypeError w'"
    using s [OF c]
    by (auto simp: update_def Display_update_def Let_def and_then_def split: prod.splits)
  have m: "(\<exists>v. upd_width u = Some v \<and> v \<noteq> width (stage_props w)) \<or>
          (\<exists>v. upd_height u = Some v \<and> v \<noteq> height (stage_props w)) \<Longrightarrow>
          (upd_width u \<noteq> None \<or> upd_height u \<noteq> None) \<and>
          merge_properties u (stage_props w) \<noteq> stage_props w"
  proof (elim disjE exE conjE)
    fix v assume a: "upd_width u = Some v" "v \<noteq> width (stage_props w)"
    then have "width (merge_properties u (stage_props w)) \<noteq> width (stage_props w)"
      by (simp add: merge_properties_def)
    with a show ?thesis by auto
  next
    fix v assume a: "upd_height u = Some v" "v \<noteq> height (stage_props w)"
    then have "height (merge_properties u (stage_props w)) \<noteq> height (stage_props w)"
      by (simp add: merge_properties_def)
    with a show ?thesis by auto
  qed
  show ?thesis using s [OF assms, of a b] u m by blast
qed

theorem setSize_before_init_fails_witness:
  "composer example_stage = None \<and> \<not> initialized example_stage \<and>
   setSize 640 360 example_stage = Throws TypeError example_stage \<and>
   (\<exists>w'. update \<lparr>upd_width = Some 640, upd_height = None, upd_zoom = None,
                   upd_backgroundColor = None\<rparr> example_stage = Throws TypeError w')"
  using setSize_before_init_fails [of example_stage 640 360
      "\<lparr>upd_width = Some 640, upd_height = None, upd_zoom = None, upd_backgroundColor = None\<rparr>"]
  by (simp add: example_stage_def new_Stage_def stage_props_def merge_properties_def
      example_properties_def)

subsection \<open>hasChanges and resetChanges\<close>

lemma hasChanges_scan:
  "foldl (\<lambda>(changes, s) r.
            if \<not> changes
            then (let (b, s') = Scene_hasChanges r s
                  in if b then (True, s') else (changes, s'))
            else (changes, s))
     (c, w) rs = (c \<or> (\<exists>r \<in> set rs. scene_changed (scene_heap w r)), w)"
  by (induction rs arbitrary: c) (auto simp: Scene_hasChanges_def)

lemma hasChanges_eq:
  "hasChanges w = (changed w \<or> (\<exists>r \<in> set (scenes w). scene_changed (scene_heap w r)), w)"
  by (simp add: hasChanges_def hasChanges_scan)

lemma foldl_resetChanges:
  "changed (foldl (\<lambda>s r. Scene_resetChanges r s) w rs) = changed w \<and>
   scenes (foldl (\<lambda>s r. Scene_resetChanges r s) w rs) = scenes w \<and>
   trace (foldl (\<lambda>s r. Scene_resetChanges r s) w rs) = trace w \<and>
   scene_changed (scene_heap (foldl (\<lambda>s r. Scene_resetChanges r s) w rs) x) =
     (x \<notin> set rs \<and> scene_changed (scene_heap w x))"
  by (induction rs arbitrary: w) (auto simp: Scene_resetChanges_def update_scene_def)

text \<open>
  C4. \<open>hasChanges()\<close> returns true if and only if \<open>changed\<close> is true or an owned scene
  reports changes, and it leaves the state as it was. \<open>resetChanges()\<close> clears \<open>changed\<close>
  and resets every owned scene, so that no owned scene reports changes afterwards and
  \<open>hasChanges()\<close> returns false, whatever the scenes reported before.
\<close>

theorem hasChanges_resetChanges:
  "fst (hasChanges w) = (changed w \<or> (\<exists>r \<in> set (scenes w). fst (Scene_hasChanges r w))) \<and>
   snd (hasChanges w) = w \<and>
   \<not> changed (resetChanges w) \<and>
   scenes (resetChanges w) = scenes w \<and>
   (\<forall>r. r \<in> set (scenes w) \<longrightarrow> \<not> fst (Scene_hasChanges r (resetChanges w))) \<and>
   \<not> fst (hasChanges (resetChanges w))"
proof -
  have a: "fst (hasChanges w) = (changed w \<or> (\<exists>r \<in> set (scenes w). fst (Scene_hasChanges r w)))"
    by (simp add: hasChanges_eq Scene_hasChanges_def)
  have b: "snd (hasChanges w) = w" by (simp add: hasChanges_eq)
  have c: "\<not> changed (resetChanges w)" "scenes (resetChanges w) = scenes w"
    using foldl_resetChanges [of "w\<lparr>changed := False\<rparr>" "scenes w"]
    by (simp_all add: resetChanges_def)
  have d: "\<And>r. r \<in> set (scenes w) \<Longrightarrow> \<not> scene_changed (scene_heap (resetChanges w) r)"
    using foldl_resetChanges [of "w\<lparr>changed := False\<rparr>" "scenes w"]
    by (simp add: resetChanges_def)
  then have e: "\<forall>r. r \<in> set (scenes w) \<longrightarrow> \<not> fst (Scene_hasChanges r (resetChanges w))"
    by (simp add: Scene_hasChanges_def)
  have f: "\<not> fst (hasChanges (resetChanges w))"
    using c d by (simp add: hasChanges_eq)
  from a b c e f show ?thesis by blast
qed

theorem hasChanges_resetChanges_witness:
  "\<not> changed two_scenes \<and> fst (Scene_hasChanges 7 two_scenes) \<and> 7 \<in> set (scenes two_scenes) \<and>
   fst (hasChanges two_scenes) \<and> snd (hasChanges two_scenes) = two_scenes \<and>
   \<not> fst (Scene_hasChanges 7 (resetChanges two_scenes)) \<and>
   \<not> fst (hasChanges (resetChanges two_scenes))"
  using hasChanges_resetChanges [of two_scenes]
  by (simp add: two_scenes_def example_stage_def new_Stage_def Scene_hasChanges_def)

subsection \<open>render\<close>

lemma renderScene_eq:
  "composer w \<noteq> None \<Longrightarrow>
   renderScene r d w =
     Returns (w\<lparr>trace := trace w @ [SceneRender r d,
        ComposerBlendBuffer (SceneBuffer r d) (scene_props (scene_heap w r))]\<rparr>)"
  by (auto simp: renderScene_def Scene_render_def log_event_def Let_def)

lemma render_scenes_eq:
  "composer w \<noteq> None \<Longrightarrow>
   render_scenes rs d w =
     Returns (w\<lparr>trace := trace w @ concat (map (scene_calls (scene_heap w) d) rs)\<rparr>)"
proof (induction rs arbitrary: w)
  case Nil
  then show ?case by simp
next
  case (Cons r rs)
  let ?w1 = "w\<lparr>trace := trace w @ scene_calls (scene_heap w) d r\<rparr>"
  have step: "(if enabled (scene_props (scene_heap w r)) then renderScene r d w else Returns w)
              = Returns ?w1"
    using Cons.prems by (simp add: renderScene_eq scene_calls_def)
  have c: "composer ?w1 \<noteq> None" using Cons.prems by simp
  show ?case
    using Cons.IH [OF c] by (simp add: step and_then_def)
qed

lemma blended_buffers:
  "[b. ComposerBlendBuffer b p \<leftarrow> concat (map (scene_calls h d) rs)] =
   [SceneBuffer r d. r \<leftarrow> rs, enabled (scene_props (h r))]"
  by (induction rs) (simp_all add: scene_calls_def)

lemma scene_calls_fun:
  "scene_calls h d =
     (\<lambda>r. if enabled (scene_props (h r))
          then [SceneRender r d, ComposerBlendBuffer (SceneBuffer r d) (scene_props (h r))]
          else [])"
  by (rule ext) (simp add: scene_calls_def)

text \<open>
  C7. On a Stage whose composer exists, \<open>render(data)\<close> returns and its calls are, in
  order: the composer is cleared to the Stage's background color with alpha 1; then, for
  each owned scene in stored order, nothing when the scene is disabled and, when it is
  enabled, the scene's \<open>render\<close> followed by \<open>blendBuffer\<close> with the buffer it returned and
  the scene's property record; then \<open>renderToScreen\<close>. So the buffers blended during the
  call, and the scenes rendered, are exactly those of the enabled scenes, in order.
\<close>

theorem render_blends_enabled_scenes:
  assumes "composer w \<noteq> None"
  shows "\<exists>w'. render d w = Returns w' \<and>
           trace w' = trace w @ [ComposerClear (stage_backgroundColor w) 1] @
                      concat (map (\<lambda>r. if enabled (scene_props (scene_heap w r))
                                        then [SceneRender r d,
                                              ComposerBlendBuffer (SceneBuffer r d)
                                                (scene_props (scene_heap w r))]
                                        else []) (scenes w)) @
                      [ComposerRenderToScreen] \<and>
           [b. ComposerBlendBuffer b p \<leftarrow> trace w'] =
           [b. ComposerBlendBuffer b p \<leftarrow> trace w] @
           [SceneBuffer r d. r \<leftarrow> scenes w, enabled (scene_props (scene_heap w r))] \<and>
           [r. SceneRender r x \<leftarrow> trace w'] =
           [r. SceneRender r x \<leftarrow> trace w] @
           [r. r \<leftarrow> scenes w, enabled (scene_props (scene_heap w r))]"
proof -
  let ?w0 = "log_event (ComposerClear (stage_backgroundColor w) 1) w"
  have c: "composer ?w0 \<noteq> None" using assms by (simp add: log_event_def)
  have r: "render d w = Returns (log_event ComposerRenderToScreen
             (?w0\<lparr>trace := trace ?w0 @ concat (map (scene_calls (scene_heap w) d) (scenes w))\<rparr>))"
    using assms render_scenes_eq [OF c, of "scenes w" d]
    by (auto simp: render_def and_then_def log_event_def)
  have rendered: "[r. SceneRender r x \<leftarrow> concat (map (scene_calls h d) rs)] =
           [r. r \<leftarrow> rs, enabled (scene_props (h r))]" for rs h
    by (induction rs) (simp_all add: scene_calls_def)
  show ?thesis
    using r blended_buffers [of "scene_heap w" d "scenes w"] rendered [of "scene_heap w" "scenes w"]
    unfolding scene_calls_fun by (simp add: log_event_def)
qed

theorem render_blends_enabled_scenes_witness:
  "composer (init two_scenes) \<noteq> None \<and>
   (\<exists>w'. render 0 (init two_scenes) = Returns w' \<and>
      trace w' = [ComposerClear (Some ''#000000'') 1, SceneRender 8 0,
                  ComposerBlendBuffer (SceneBuffer 8 0)
                    \<lparr>enabled = True, blend_props = [(''opacity'', ''0.5'')]\<rparr>,
                  ComposerRenderToScreen] \<and>
      [b. ComposerBlendBuffer b p \<leftarrow> trace w'] = [SceneBuffer 8 0])"
proof -
  have c: "composer (init two_scenes) \<noteq> None"
    by (simp add: init_def Let_def two_scenes_def example_stage_def new_Stage_def)
  have t: "trace (init two_scenes) = []" "scenes (init two_scenes) = [7, 8]"
    "stage_backgroundColor (init two_scenes) = Some ''#000000''"
    "enabled (scene_props (scene_heap (init two_scenes) 8))"
    "\<not> enabled (scene_props (scene_heap (init two_scenes) 7))"
    "scene_props (scene_heap (init two_scenes) 8) = \<lparr>enabled = True, blend_props = [(''opacity'', ''0.5'')]\<rparr>"
    by (simp_all add: init_def Let_def two_scenes_def example_stage_def new_Stage_def
        stage_props_def example_properties_def)
  from render_blends_enabled_scenes [OF c, of 0] t c show ?thesis
    by auto
qed

subsection \<open>setZoom\<close>

lemma update_zoom_only:
  "update \<lparr>upd_width = None, upd_height = None, upd_zoom = Some z, upd_backgroundColor = None\<rparr> w =
     Returns (stage_props w\<lparr>zoom := z\<rparr> \<noteq> stage_props w,
              w\<lparr>props_store := (props_store w)(properties w := stage_props w\<lparr>zoom := z\<rparr>),
                changed := (changed w \<or> stage_props w\<lparr>zoom := z\<rparr> \<noteq> stage_props w)\<rparr>)"
proof -
  have m: "merge_properties \<lparr>upd_width = None, upd_height = None, upd_zoom = Some z,
             upd_backgroundColor = None\<rparr> (stage_props w) = stage_props w\<lparr>zoom := z\<rparr>"
    by (simp add: merge_properties_def)
  show ?thesis
    by (simp add: update_def Display_update_def Let_def and_then_def m)
qed

lemma setZoom_result:
  "\<exists>w'. setZoom val w = Returns w' \<and>
      zoom (stage_props w') = zoom_target val (zoom (stage_props w)) \<and>
      trace w' = trace w @ [Emit ''zoom''] \<and> scenes w' = scenes w"
proof -
  let ?z = "zoom (stage_props w)"
  consider (up) "val > 0" "?z < 1" | (top) "val > 0" "\<not> ?z < 1"
    | (down) "\<not> val > 0" "val < 0" "?z > 0.25" | (bottom) "\<not> val > 0" "val < 0" "\<not> ?z > 0.25"
    | (reset) "\<not> val > 0" "\<not> val < 0"
    by blast
  then show ?thesis
  proof cases
    case up
    then show ?thesis
      by (simp add: setZoom_def Let_def update_zoom_only and_then_def log_event_def
          zoom_target_def stage_props_def)
  next
    case top
    then show ?thesis
      by (simp add: setZoom_def Let_def and_then_def log_event_def zoom_target_def
          stage_props_def)
  next
    case down
    then show ?thesis
      by (simp add: setZoom_def Let_def update_zoom_only and_then_def log_event_def
          zoom_target_def stage_props_def)
  next
    case bottom
    then show ?thesis
      by (simp add: setZoom_def Let_def and_then_def log_event_def zoom_target_def
          stage_props_def)
  next
    case reset
    then show ?thesis
      by (simp add: setZoom_def Let_def update_zoom_only and_then_def log_event_def
          zoom_target_def stage_props_def)
  qed
qed

lemma zoom_target_levels: "z \<in> zoom_levels \<Longrightarrow> zoom_target val z \<in> zoom_levels"
  by (auto simp: zoom_levels_def zoom_target_def)

lemma zoom_target_up:
  "z \<in> zoom_levels \<Longrightarrow> val > 0 \<Longrightarrow>
   min 1 (zoom_target val z + of_nat n / 4) = min 1 (z + of_nat (Suc n) / 4)"
  by (auto simp: zoom_levels_def zoom_target_def min_def field_simps)

lemma zoom_target_down:
  "z \<in> zoom_levels \<Longrightarrow> val < 0 \<Longrightarrow>
   max (1 / 4) (zoom_target val z - of_nat n / 4) = max (1 / 4) (z - of_nat (Suc n) / 4)"
  by (auto simp: zoom_levels_def zoom_target_def max_def field_simps)

lemma repeat_setZoom_result:
  "zoom (stage_props w) \<in> zoom_levels \<Longrightarrow>
   \<exists>w'. repeat_setZoom n val w = Returns w' \<and>
      zoom (stage_props w') \<in> zoom_levels \<and>
      zoom (stage_props w') =
        (if n = 0 then zoom (stage_props w)
         else if val > 0 then min 1 (zoom (stage_props w) + of_nat n / 4)
         else if val < 0 then max (1 / 4) (zoom (stage_props w) - of_nat n / 4)
         else 1) \<and>
      trace w' = trace w @ replicate n (Emit ''zoom'')"
proof (induction n arbitrary: w)
  case 0
  then show ?case by simp
next
  case (Suc n)
  from setZoom_result [of val w] obtain w1 where
    w1: "setZoom val w = Returns w1"
      "zoom (stage_props w1) = zoom_target val (zoom (stage_props w))"
      "trace w1 = trace w @ [Emit ''zoom'']"
    by blast
  have lv: "zoom (stage_props w1) \<in> zoom_levels"
    using Suc.prems w1(2) by (simp add: zoom_target_levels)
  from Suc.IH [OF lv] obtain w' where
    w': "repeat_setZoom n val w1 = Returns w'" "zoom (stage_props w') \<in> zoom_levels"
      "zoom (stage_props w') =
        (if n = 0 then zoom (stage_props w1)
         else if val > 0 then min 1 (zoom (stage_props w1) + of_nat n / 4)
         else if val < 0 then max (1 / 4) (zoom (stage_props w1) - of_nat n / 4)
         else 1)"
      "trace w' = trace w1 @ replicate n (Emit ''zoom'')"
    by blast
  have run: "repeat_setZoom (Suc n) val w = Returns w'"
    by (simp add: w1(1) w'(1) and_then_def)
  have tr: "trace w' = trace w @ replicate (Suc n) (Emit ''zoom'')"
    by (simp add: w'(4) w1(3) replicate_app_Cons_same)
  have z: "zoom (stage_props w') =
        (if val > 0 then min 1 (zoom (stage_props w) + of_nat (Suc n) / 4)
         else if val < 0 then max (1 / 4) (zoom (stage_props w) - of_nat (Suc n) / 4)
         else 1)"
  proof (cases "n = 0")
    case True
    with w'(3) w1(2) Suc.prems show ?thesis
      by (auto simp: zoom_levels_def zoom_target_def)
  next
    case False
    with w'(3) w1(2) zoom_target_up [OF Suc.prems, of val n] zoom_target_down [OF Suc.prems, of val n]
    show ?thesis by (auto simp: zoom_target_def)
  qed
  from run tr z w'(2) show ?case by simp
qed

text \<open>
  C3. On a Stage whose zoom is one of 0.25, 0.5, 0.75 and 1, \<open>setZoom\<close> returns and the
  zoom is again one of them: a positive argument adds 0.25 only when the zoom is below 1,
  a negative one subtracts 0.25 only when it is above 0.25, and any other sets it to 1;
  the call emits \<open>zoom\<close> once, whether or not the value changed. Repeated \<open>n\<close> times, a
  positive argument leaves the smaller of 1 and the zoom plus \<open>n\<close> quarters, a negative
  one the larger of 0.25 and the zoom minus \<open>n\<close> quarters: from 0.25 the zoom is 0.75
  after two calls, 1 after three, and 1 after four.
\<close>

theorem setZoom_keeps_levels:
  assumes "zoom (stage_props w) \<in> {0.25, 0.5, 0.75, 1}"
  shows "(\<exists>w'. setZoom val w = Returns w' \<and>
            zoom (stage_props w') \<in> {0.25, 0.5, 0.75, 1} \<and>
            zoom (stage_props w') =
              (if val > 0 then (if zoom (stage_props w) < 1 then zoom (stage_props w) + 0.25
                                else zoom (stage_props w))
               else if val < 0 then (if zoom (stage_props w) > 0.25 then zoom (stage_props w) - 0.25
                                     else zoom (stage_props w))
               else 1) \<and>
            trace w' = trace w @ [Emit ''zoom'']) \<and>
         (\<forall>n. \<exists>w'. repeat_setZoom n val w = Returns w' \<and>
            zoom (stage_props w') \<in> {0.25, 0.5, 0.75, 1} \<and>
            zoom (stage_props w') =
              (if n = 0 then zoom (stage_props w)
               else if val > 0 then min 1 (zoom (stage_props w) + of_nat n / 4)
               else if val < 0 then max (1 / 4) (zoom (stage_props w) - of_nat n / 4)
               else 1) \<and>
            trace w' = trace w @ replicate n (Emit ''zoom''))"
proof -
  have lv: "zoom (stage_props w) \<in> zoom_levels"
    using assms by (simp add: zoom_levels_def)
  from setZoom_result [of val w] obtain w1 where
    w1: "setZoom val w = Returns w1"
      "zoom (stage_props w1) = zoom_target val (zoom (stage_props w))"
      "trace w1 = trace w @ [Emit ''zoom'']"
    by blast
  have "zoom (stage_props w1) \<in> zoom_levels"
    using lv w1(2) by (simp add: zoom_target_levels)
  then have one: "\<exists>w'. setZoom val w = Returns w' \<and>
            zoom (stage_props w') \<in> {0.25, 0.5, 0.75, 1} \<and>
            zoom (stage_props w') =
              (if val > 0 then (if zoom (stage_props w) < 1 then zoom (stage_props w) + 0.25
                                else zoom (stage_props w))
               else if val < 0 then (if zoom (stage_props w) > 0.25 then zoom (stage_props w) - 0.25
                                     else zoom (stage_props w))
               else 1) \<and>
            trace w' = trace w @ [Emit ''zoom'']"
    using w1 unfolding zoom_levels_def zoom_target_def by blast
  have many: "\<exists>w'. repeat_setZoom n val w = Returns w' \<and>
            zoom (stage_props w') \<in> {0.25, 0.5, 0.75, 1} \<and>
            zoom (stage_props w') =
              (if n = 0 then zoom (stage_props w)
               else if val > 0 then min 1 (zoom (stage_props w) + of_nat n / 4)
               else if val < 0 then max (1 / 4) (zoom (stage_props w) - of_nat n / 4)
               else 1) \<and>
            trace w' = trace w @ replicate n (Emit ''zoom'')" for n
    using repeat_setZoom_result [OF lv, of n val] unfolding zoom_levels_def by blast
  from one many show ?thesis by blast
qed

lemma zoomed_out_zoom: "zoom (stage_props zoomed_out) = 1 / 4"
  by (simp add: zoomed_out_def stage_props_def example_stage_def new_Stage_def
      example_properties_def)

lemma example_stage_zoom: "zoom (stage_props example_stage) = 1"
  by (simp add: stage_props_def example_stage_def new_Stage_def example_properties_def)



theorem setZoom_keeps_levels_witness:
  "zoom (stage_props zoomed_out) = 0.25 \<and>
   (\<exists>w'. repeat_setZoom 2 1 zoomed_out = Returns w' \<and> zoom (stage_props w') = 0.75) \<and>
   (\<exists>w'. repeat_setZoom 3 1 zoomed_out = Returns w' \<and> zoom (stage_props w') = 1) \<and>
   (\<exists>w'. repeat_setZoom 4 1 zoomed_out = Returns w' \<and> zoom (stage_props w') = 1) \<and>
   zoom (stage_props example_stage) = 1 \<and>
   (\<exists>w'. repeat_setZoom 2 (- 1) example_stage = Returns w' \<and> zoom (stage_props w') = 0.5) \<and>
   (\<exists>w'. repeat_setZoom 3 (- 1) example_stage = Returns w' \<and> zoom (stage_props w') = 0.25) \<and>
   (\<exists>w'. repeat_setZoom 4 (- 1) example_stage = Returns w' \<and> zoom (stage_props w') = 0.25) \<and>
   (\<exists>w'. setZoom 0 zoomed_out = Returns w' \<and> zoom (stage_props w') = 1 \<and>
         trace w' = [Emit ''zoom''])"
proof -
  have a: "zoom (stage_props zoomed_out) \<in> {0.25, 0.5, 0.75, 1}"
    by (simp add: zoomed_out_zoom)
  have b: "zoom (stage_props example_stage) \<in> {0.25, 0.5, 0.75, 1}"
    by (simp add: example_stage_zoom)
  have t: "trace zoomed_out = []"
    by (simp add: zoomed_out_def example_stage_def new_Stage_def)
  note up = setZoom_keeps_levels [OF a, of 1, THEN conjunct2, THEN spec]
  note down = setZoom_keeps_levels [OF b, of "- 1", THEN conjunct2, THEN spec]
  note reset = setZoom_keeps_levels [OF a, of 0, THEN conjunct1]
  have u2: "\<exists>w'. repeat_setZoom 2 1 zoomed_out = Returns w' \<and> zoom (stage_props w') = 0.75"
    using up [of 2] by (auto simp: zoomed_out_zoom)
  have u3: "\<exists>w'. repeat_setZoom 3 1 zoomed_out = Returns w' \<and> zoom (stage_props w') = 1"
    using up [of 3] by (auto simp: zoomed_out_zoom)
  have u4: "\<exists>w'. repeat_setZoom 4 1 zoomed_out = Returns w' \<and> zoom (stage_props w') = 1"
    using up [of 4] by (auto simp: zoomed_out_zoom)
  have d2: "\<exists>w'. repeat_setZoom 2 (- 1) example_stage = Returns w' \<and> zoom (stage_props w') = 0.5"
    using down [of 2] by (auto simp: example_stage_zoom)
  have d3: "\<exists>w'. repeat_setZoom 3 (- 1) example_stage = Returns w' \<and> zoom (stage_props w') = 0.25"
    using down [of 3] by (auto simp: example_stage_zoom)
  have d4: "\<exists>w'. repeat_setZoom 4 (- 1) example_stage = Returns w' \<and> zoom (stage_props w') = 0.25"
    using down [of 4] by (auto simp: example_stage_zoom)
  have r: "\<exists>w'. setZoom 0 zoomed_out = Returns w' \<and> zoom (stage_props w') = 1 \<and>
         trace w' = [Emit ''zoom'']"
    using reset t by auto
  have z: "zoom (stage_props zoomed_out) = 0.25" "zoom (stage_props example_stage) = 1"
    by (simp_all add: zoomed_out_zoom example_stage_zoom)
  from z u2 u3 u4 d2 d3 d4 r show ?thesis by (intro conjI)
qed

subsection \<open>toJSON\<close>

lemma toJSON_eq:
  "toJSON w =
     (\<lparr>json_id = stage_id w, json_name = stage_name w, json_type = stage_type w,
       json_properties = next_addr w\<rparr>,
      w\<lparr>props_store := (props_store w)(next_addr w := stage_props w),
        next_addr := Suc (next_addr w)\<rparr>)"
  by (simp add: toJSON_def Let_def stage_props_def)

text \<open>
  C8. \<open>toJSON()\<close> returns the record of the Stage's \<open>id\<close>, \<open>name\<close> and \<open>type\<close> and of a
  \<open>properties\<close> object that is new: it holds the Stage's properties, it is not the
  Stage's property object, and whatever is written to it afterwards the Stage's
  properties stay what they were. A Stage made again from the record serializes to a
  record with the same \<open>id\<close>, \<open>name\<close>, \<open>type\<close> and properties. The Stage's property object
  is one the store has allocated, and its type is the constant tag, as the constructor
  leaves them.
\<close>

theorem toJSON_copy_roundtrip:
  assumes alloc: "properties w < next_addr w"
    and tag: "stage_type w = DISPLAY_TYPE_STAGE en"
    and call: "toJSON w = (j, w')"
  shows "j = \<lparr>json_id = stage_id w, json_name = stage_name w, json_type = stage_type w,
              json_properties = json_properties j\<rparr> \<and>
         props_store w' (json_properties j) = stage_props w \<and>
         json_properties j \<noteq> properties w' \<and>
         stage_props w' = stage_props w \<and>
         (\<forall>v. stage_props (w'\<lparr>props_store := (props_store w')(json_properties j := v)\<rparr>) =
              stage_props w) \<and>
         (\<forall>j2 w2. toJSON (Stage_from_record en (props_store w') j) = (j2, w2) \<longrightarrow>
            json_id j2 = json_id j \<and> json_name j2 = json_name j \<and> json_type j2 = json_type j \<and>
            props_store w2 (json_properties j2) = props_store w' (json_properties j))"
proof -
  from call have j: "j = \<lparr>json_id = stage_id w, json_name = stage_name w,
      json_type = stage_type w, json_properties = next_addr w\<rparr>"
    and w': "w' = w\<lparr>props_store := (props_store w)(next_addr w := stage_props w),
        next_addr := Suc (next_addr w)\<rparr>"
    by (simp_all add: toJSON_eq)
  have a: "json_properties j = next_addr w" by (simp add: j)
  have b: "properties w' = properties w" by (simp add: w')
  have ne: "json_properties j \<noteq> properties w'" using alloc a b by simp
  have copy: "props_store w' (json_properties j) = stage_props w" by (simp add: w' a)
  have live: "stage_props w' = stage_props w"
    using alloc by (simp add: w' stage_props_def)
  have indep: "stage_props (w'\<lparr>props_store := (props_store w')(json_properties j := v)\<rparr>) =
              stage_props w" for v
    using alloc by (simp add: w' a stage_props_def)
  have round: "json_id j2 = json_id j \<and> json_name j2 = json_name j \<and> json_type j2 = json_type j \<and>
            props_store w2 (json_properties j2) = props_store w' (json_properties j)"
    if "toJSON (Stage_from_record en (props_store w') j) = (j2, w2)" for j2 w2
    using that tag
    by (auto simp: toJSON_eq Stage_from_record_def new_Stage_def stage_props_def j)
  from j a have shape: "j = \<lparr>json_id = stage_id w, json_name = stage_name w,
      json_type = stage_type w, json_properties = json_properties j\<rparr>" by simp
  from shape copy ne live indep round show ?thesis by blast
qed

theorem toJSON_copy_roundtrip_witness:
  "properties example_stage < next_addr example_stage \<and>
   stage_type example_stage = DISPLAY_TYPE_STAGE example_env \<and>
   fst (toJSON example_stage) =
     \<lparr>json_id = 1, json_name = ''Stage'', json_type = ''stage'', json_properties = 1\<rparr> \<and>
   props_store (snd (toJSON example_stage)) 1 = example_properties \<and>
   stage_props (snd (toJSON example_stage)
     \<lparr>props_store := (props_store (snd (toJSON example_stage)))
        (1 := example_properties\<lparr>zoom := 0.5\<rparr>)\<rparr>) = example_properties \<and>
   fst (toJSON (Stage_from_record example_env (props_store (snd (toJSON example_stage)))
                  (fst (toJSON example_stage)))) =
     \<lparr>json_id = 1, json_name = ''Stage'', json_type = ''stage'', json_properties = 1\<rparr>"
  using toJSON_copy_roundtrip [of example_stage example_env "fst (toJSON example_stage)"
      "snd (toJSON example_stage)"]
  by (simp add: toJSON_eq example_stage_def new_Stage_def example_env_def stage_props_def
      Stage_from_record_def)

subsection \<open>loadConfig\<close>

lemma typeof_object:
  "(typeof v = ''object'') = (v = JNull \<or> (\<exists>vs. v = JArray vs) \<or> (\<exists>c. v = JObject c))"
  by (cases v) simp_all

text \<open>
  C1, as amended. For every input whose \<open>typeof\<close> is not \<open>object\<close> (a number such as 42, a
  string, a boolean, \<open>undefined\<close>, a function), \<open>loadConfig\<close> reports the error
  \<open>Invalid project data.\<close> and does nothing else: the scene list, the properties and the
  flag \<open>changed\<close> are what they were, and no scene has been cleared.
\<close>

theorem loadConfig_rejects_non_objects:
  assumes "typeof cfg \<noteq> ''object''"
  shows "loadConfig en cfg w = Returns (w\<lparr>trace := trace w @ [RaiseError ''Invalid project data.'']\<rparr>)"
  using assms by (simp add: loadConfig_def raiseError_def log_event_def)

theorem loadConfig_rejects_non_objects_witness:
  "typeof (JNumber 42) \<noteq> ''object'' \<and>
   loadConfig example_env (JNumber 42) two_scenes =
     Returns (two_scenes\<lparr>trace := [RaiseError ''Invalid project data.'']\<rparr>) \<and>
   scenes two_scenes = [7, 8]"
  using loadConfig_rejects_non_objects [of "JNumber 42" example_env two_scenes]
  by (simp add: two_scenes_def example_stage_def new_Stage_def)

text \<open>
  C1, as stated, fails on \<open>null\<close> and on an array: both pass the guard
  \<open>typeof config === 'object'\<close>. On a Stage with two scenes, \<open>loadConfig(null)\<close> clears the
  scenes and then throws a TypeError at \<open>config.scenes\<close>, and \<open>loadConfig([])\<close> clears the
  scenes and returns; neither reports the validation error.
\<close>

lemma clearScenes_two_scenes:
  "scenes (clearScenes two_scenes) = [] \<and>
   trace (clearScenes two_scenes) =
     [SceneRemoveFromStage 7 None, SceneRemoveFromStage 8 None, ResetDisplayCount] \<and>
   changed (clearScenes two_scenes) \<and>
   composer (clearScenes two_scenes) = None"
  by (simp add: clearScenes_def removeScene_def Scene_removeFromStage_def log_event_def
      update_scene_def remove_arr_def Let_def two_scenes_def example_stage_def new_Stage_def)

theorem loadConfig_null_and_array_counterexample:
  "typeof JNull = ''object'' \<and> typeof (JArray []) = ''object'' \<and>
   scenes two_scenes = [7, 8] \<and> \<not> changed two_scenes \<and>
   loadConfig example_env JNull two_scenes = Throws TypeError (clearScenes two_scenes) \<and>
   loadConfig example_env (JArray []) two_scenes = Returns (clearScenes two_scenes) \<and>
   scenes (clearScenes two_scenes) = [] \<and>
   changed (clearScenes two_scenes) \<and>
   trace (clearScenes two_scenes) =
     [SceneRemoveFromStage 7 None, SceneRemoveFromStage 8 None, ResetDisplayCount]"
proof -
  have n: "loadConfig example_env JNull two_scenes = Throws TypeError (clearScenes two_scenes)"
    by (simp add: loadConfig_def Let_def)
  have p: "stage_props (clearScenes two_scenes) = example_properties"
    "properties (clearScenes two_scenes) = 0"
    "props_store (clearScenes two_scenes) = (\<lambda>a. example_properties)"
    by (simp_all add: clearScenes_def removeScene_def Scene_removeFromStage_def log_event_def
      update_scene_def remove_arr_def Let_def two_scenes_def example_stage_def new_Stage_def
      stage_props_def)
  have m: "merge_properties (Stage_defaultProperties example_env) example_properties = example_properties"
    by (simp add: merge_properties_def Stage_defaultProperties_def example_env_def
        example_properties_def)
  have d: "Display_update (Stage_defaultProperties example_env) (clearScenes two_scenes) =
           (False, clearScenes two_scenes)"
    using clearScenes_two_scenes
    by (simp add: Display_update_def Let_def p m fun_upd_idem)
  have u: "update (Stage_defaultProperties example_env) (clearScenes two_scenes) =
           Returns (False, clearScenes two_scenes)"
    by (simp add: update_def d)
  have a: "loadConfig example_env (JArray []) two_scenes = Returns (clearScenes two_scenes)"
    by (simp add: loadConfig_def Let_def u and_then_def)
  have s: "scenes two_scenes = [7, 8]" "\<not> changed two_scenes"
    by (simp_all add: two_scenes_def example_stage_def new_Stage_def)
  from n a s clearScenes_two_scenes show ?thesis by simp
qed

end
